theory Spec2Isabelle
  imports Main "HOL-Library.Word"
begin

section \<open>Python values, exceptions and call outcomes\<close>

text \<open>
  The service of \<^verbatim>\<open>backend/main.py\<close> stores and forwards values of type
  \<^verbatim>\<open>Dict[str, Any]\<close> that end up in a JSON response. They are modelled as the
  JSON-representable Python values; a dict is an association list, in insertion order,
  and a \<^verbatim>\<open>str\<close> is held as the bytes of its UTF-8 encoding. The service never
  copies what its collaborators return: it keeps the object itself. \<open>PRef a\<close> is such an
  object, known by its address; what it holds at a given moment is the matter of the heap
  introduced further down.
\<close>

datatype pyval =
    PNone
  | PBool bool
  | PInt int
  | PStr string
  | PList "pyval list"
  | PDict "(string \<times> pyval) list"
  | PRef nat

text \<open>
  A raised Python exception, as far as the code and the runtime tell exceptions apart:
  \<^item> its class: \<^verbatim>\<open>except Exception\<close> matches the instances of \<^verbatim>\<open>Exception\<close> and not
    the other instances of \<^verbatim>\<open>BaseException\<close> (\<^verbatim>\<open>SystemExit\<close>, \<^verbatim>\<open>KeyboardInterrupt\<close>,
    \<^verbatim>\<open>asyncio.CancelledError\<close>, ...); among the instances of \<^verbatim>\<open>Exception\<close>, the
    runtime treats three kinds on their own when they cross an \<^verbatim>\<open>await\<close>:
    \<^verbatim>\<open>StopIteration\<close> itself, an instance of a proper subclass of it (with its
    \<^verbatim>\<open>value\<close>), and \<^verbatim>\<open>concurrent.futures.CancelledError\<close> itself;
  \<^item> what \<^verbatim>\<open>repr(e)\<close> does: it returns a string, or \<^verbatim>\<open>__repr__\<close> raises in its turn.
\<close>

datatype exc_class =
    StopIteration
  | StopIteration_subclass pyval
  | Futures_CancelledError
  | Exception_subclass
  | BaseException_subclass

datatype pyexc = PyExc (exc_class: exc_class) (py_repr: py_repr)
  and py_repr = Repr_returns string | Repr_raises pyexc

definition is_Exception :: "pyexc \<Rightarrow> bool" where
  "is_Exception e = (exc_class e \<noteq> BaseException_subclass)"

text \<open>What a call that comes back gives: a value, or a raised exception.\<close>

datatype 'a outcome = Returns 'a | Raises pyexc

text \<open>
  What an \<^verbatim>\<open>await\<close> gives to the coroutine that waits: an outcome, or nothing ever,
  when the awaited future is never completed.
\<close>

datatype 'a awaited = Delivered "'a outcome" | Never_resumes

definition AttributeError :: pyexc where
  "AttributeError = PyExc Exception_subclass (Repr_returns ''AttributeError()'')"

definition RuntimeError :: pyexc where
  "RuntimeError = PyExc Exception_subclass (Repr_returns ''RuntimeError()'')"

definition SystemExit :: pyexc where
  "SystemExit = PyExc BaseException_subclass (Repr_returns ''SystemExit()'')"

definition KeyboardInterrupt :: pyexc where
  "KeyboardInterrupt = PyExc BaseException_subclass (Repr_returns ''KeyboardInterrupt()'')"

text \<open>
  \<^verbatim>\<open>d.get(key, default)\<close>: on a dict the value stored under the key, or the default;
  any other value modelled here has no attribute \<^verbatim>\<open>get\<close>.
\<close>

definition dict_get :: "pyval \<Rightarrow> string \<Rightarrow> pyval \<Rightarrow> pyval outcome" where
  "dict_get d k dflt =
     (case d of
        PDict kvs \<Rightarrow> (case map_of kvs k of Some v \<Rightarrow> Returns v | None \<Rightarrow> Returns dflt)
      | _ \<Rightarrow> Raises AttributeError)"

section \<open>The fallback collaborators\<close>

text \<open>
  The stubs that stand in when \<^verbatim>\<open>backend.ai_pipeline\<close> and \<^verbatim>\<open>backend.insights\<close>
  cannot be imported (lines 18--26 and 32--34). The first is an \<^verbatim>\<open>async def\<close>. The
  tip of the second has an em dash (U+2014), the bytes \<^verbatim>\<open>E2 80 94\<close>.
\<close>

definition stub_process_stream_once :: "pyval outcome" where
  "stub_process_stream_once =
     Returns (PDict [(''rally_count'', PInt 0), (''heatmaps'', PDict []),
                     (''player_stats'', PDict []), (''last_updated'', PNone)])"

definition stub_tip :: string where
  "stub_tip = ''AI pipeline not loaded '' @ [CHR 0xE2, CHR 0x80, CHR 0x94]
                @ '' no tips available yet.''"

definition stub_generate_insights :: "pyval \<Rightarrow> pyval outcome" where
  "stub_generate_insights stats = Returns (PDict [(''tips'', PList [PStr stub_tip])])"

section \<open>The shared variable and the refresh loop\<close>

text \<open>The initial value of the global \<^verbatim>\<open>LATEST_STATS\<close> (line 45).\<close>

definition LATEST_STATS_init :: pyval where
  "LATEST_STATS_init =
     PDict [(''status'', PStr ''starting''), (''stats'', PDict []), (''tips'', PDict [])]"

text \<open>
  Line 65, \<^verbatim>\<open>await process_stream_once()\<close> on a coroutine function: the coroutine's
  outcome reaches the loop as it is, but for a \<^verbatim>\<open>StopIteration\<close> (of any class), which
  leaves a coroutine as \<^verbatim>\<open>RuntimeError('coroutine raised StopIteration')\<close>.
\<close>

definition coroutine_raised_StopIteration :: pyexc where
  "coroutine_raised_StopIteration =
     PyExc Exception_subclass
       (Repr_returns (''RuntimeError('' @ [CHR 0x27] @ ''coroutine raised StopIteration''
                       @ [CHR 0x27] @ '')''))"

definition await_coroutine :: "pyval outcome \<Rightarrow> pyval awaited" where
  "await_coroutine body =
     (case body of
        Returns v \<Rightarrow> Delivered (Returns v)
      | Raises e \<Rightarrow>
          (case exc_class e of
             StopIteration \<Rightarrow> Delivered (Raises coroutine_raised_StopIteration)
           | StopIteration_subclass v \<Rightarrow> Delivered (Raises coroutine_raised_StopIteration)
           | _ \<Rightarrow> Delivered (Raises e)))"

text \<open>
  Line 67, \<^verbatim>\<open>await asyncio.to_thread(process_stream_once)\<close> on any other function: the
  worker thread hands the outcome to a future of the event loop. A \<^verbatim>\<open>StopIteration\<close>
  cannot be set on that future, which then stays pending for ever; an instance of a
  subclass of \<^verbatim>\<open>StopIteration\<close> is set, and ends the \<^verbatim>\<open>await\<close> as a return of its
  \<^verbatim>\<open>value\<close>; a \<^verbatim>\<open>concurrent.futures.CancelledError\<close> is replaced by an
  \<^verbatim>\<open>asyncio.CancelledError\<close> of the same arguments, which is no instance of
  \<^verbatim>\<open>Exception\<close>; anything else arrives as it is.
\<close>

definition to_thread :: "pyval outcome \<Rightarrow> pyval awaited" where
  "to_thread func =
     (case func of
        Returns v \<Rightarrow> Delivered (Returns v)
      | Raises e \<Rightarrow>
          (case exc_class e of
             StopIteration \<Rightarrow> Never_resumes
           | StopIteration_subclass v \<Rightarrow> Delivered (Returns v)
           | Futures_CancelledError \<Rightarrow>
               Delivered (Raises (PyExc BaseException_subclass (py_repr e)))
           | _ \<Rightarrow> Delivered (Raises e)))"

text \<open>
  Lines 64--67. The first argument is \<^verbatim>\<open>asyncio.iscoroutinefunction(process_stream_once)\<close>,
  the second what the body of \<^verbatim>\<open>process_stream_once\<close> does when it is run.
\<close>

definition await_process_stream_once :: "bool \<Rightarrow> pyval outcome \<Rightarrow> pyval awaited" where
  "await_process_stream_once iscoroutinefunction process_stream_once =
     (if iscoroutinefunction then await_coroutine process_stream_once
      else to_thread process_stream_once)"

text \<open>
  The inner \<^verbatim>\<open>try\<close> of lines 70--73: the insights transformer is called on the
  snapshot; an exception that \<^verbatim>\<open>except Exception\<close> matches is replaced by the marker
  dict, any other exception goes on.
\<close>

definition insights_marker :: pyval where
  "insights_marker = PDict [(''error'', PStr ''insights generation failed'')]"

definition try_generate_insights :: "(pyval \<Rightarrow> pyval outcome) \<Rightarrow> pyval \<Rightarrow> pyval outcome" where
  "try_generate_insights generate_insights stats =
     (case generate_insights stats of
        Returns tips \<Rightarrow> Returns tips
      | Raises e \<Rightarrow> if is_Exception e then Returns insights_marker else Raises e)"

text \<open>
  The body of the outer \<^verbatim>\<open>try\<close> after the \<^verbatim>\<open>await\<close> (lines 65--79), up to the value it
  assigns: what the \<^verbatim>\<open>await\<close> delivered, then the insights, then the dict display.
\<close>

definition try_body :: "pyval outcome \<Rightarrow> (pyval \<Rightarrow> pyval outcome) \<Rightarrow> pyval outcome" where
  "try_body delivered generate_insights =
     (case delivered of
        Raises e \<Rightarrow> Raises e
      | Returns stats \<Rightarrow>
          (case try_generate_insights generate_insights stats of
             Raises e \<Rightarrow> Raises e
           | Returns tips \<Rightarrow>
               Returns (PDict [(''status'', PStr ''ok''), (''stats'', stats), (''tips'', tips)])))"

text \<open>
  The handler of lines 80--87. The dict display calls \<^verbatim>\<open>repr(e)\<close>, then reads the
  current global twice with \<^verbatim>\<open>.get\<close>; an exception raised by any of the three is
  raised inside the handler and leaves the loop.
\<close>

definition except_handler :: "pyexc \<Rightarrow> pyval \<Rightarrow> pyval outcome" where
  "except_handler e latest =
     (case py_repr e of
        Repr_raises x \<Rightarrow> Raises x
      | Repr_returns r \<Rightarrow>
          (case dict_get latest ''stats'' (PDict []) of
             Raises x \<Rightarrow> Raises x
           | Returns stats \<Rightarrow>
               (case dict_get latest ''tips'' (PDict []) of
                  Raises x \<Rightarrow> Raises x
                | Returns tips \<Rightarrow>
                    Returns (PDict [(''status'', PStr ''error''), (''error'', PStr r),
                                    (''stats'', stats), (''tips'', tips)]))))"

text \<open>
  One iteration of \<^verbatim>\<open>while True\<close> (lines 62--90): a new value is bound to the global
  and the iteration reaches the sleep; or an exception leaves the loop with the global
  as it was; or the iteration stays at its \<^verbatim>\<open>await\<close> for ever, the global as it was.
\<close>

datatype cycle_result = Stored pyval | Propagated pyexc | Suspended

definition processing_cycle ::
  "bool \<Rightarrow> pyval outcome \<Rightarrow> (pyval \<Rightarrow> pyval outcome) \<Rightarrow> pyval \<Rightarrow> cycle_result" where
  "processing_cycle iscoroutinefunction process_stream_once generate_insights latest =
     (case await_process_stream_once iscoroutinefunction process_stream_once of
        Never_resumes \<Rightarrow> Suspended
      | Delivered delivered \<Rightarrow>
          (case try_body delivered generate_insights of
             Returns new \<Rightarrow> Stored new
           | Raises e \<Rightarrow>
               if is_Exception e then
                 (case except_handler e latest of
                    Returns new \<Rightarrow> Stored new
                  | Raises x \<Rightarrow> Propagated x)
               else Propagated e))"

text \<open>
  The loop over a finite schedule: what the body of the snapshot function does in each
  cycle and how the insights transformer behaves in that cycle. The state is the global,
  the number of completed cycles, and what has become of the loop task: it runs, an
  exception has left the loop, or it waits for ever; in the last two cases no further
  cycle runs.
\<close>

datatype task_state = Running | Exited pyexc | Waiting_for_ever

record loop_state =
  latest :: pyval
  completed :: nat
  task :: task_state

type_synonym cycle_behaviour = "pyval outcome \<times> (pyval \<Rightarrow> pyval outcome)"

definition loop_start :: "pyval \<Rightarrow> loop_state" where
  "loop_start v = \<lparr>latest = v, completed = 0, task = Running\<rparr>"

definition loop_iteration :: "bool \<Rightarrow> loop_state \<Rightarrow> cycle_behaviour \<Rightarrow> loop_state" where
  "loop_iteration iscoroutinefunction st b =
     (case task st of
        Running \<Rightarrow>
          (case processing_cycle iscoroutinefunction (fst b) (snd b) (latest st) of
             Stored new \<Rightarrow> st\<lparr>latest := new, completed := Suc (completed st)\<rparr>
           | Propagated e \<Rightarrow> st\<lparr>task := Exited e\<rparr>
           | Suspended \<Rightarrow> st\<lparr>task := Waiting_for_ever\<rparr>)
      | _ \<Rightarrow> st)"

definition processing_loop :: "bool \<Rightarrow> cycle_behaviour list \<Rightarrow> loop_state" where
  "processing_loop iscoroutinefunction schedule =
     foldl (loop_iteration iscoroutinefunction) (loop_start LATEST_STATS_init) schedule"

text \<open>The fields of the stored record, read as a client reads the JSON object.\<close>

definition field :: "string \<Rightarrow> pyval \<Rightarrow> pyval option" where
  "field k v = (case v of PDict kvs \<Rightarrow> map_of kvs k | _ \<Rightarrow> None)"

text \<open>
  The record the data model describes: a dict with a status out of the three, a
  snapshot under \<^verbatim>\<open>stats\<close> and insights under \<^verbatim>\<open>tips\<close>.
\<close>

definition is_LatestResult :: "pyval \<Rightarrow> bool" where
  "is_LatestResult v =
     (field ''status'' v \<in> {Some (PStr ''starting''), Some (PStr ''ok''), Some (PStr ''error'')}
      \<and> field ''stats'' v \<noteq> None \<and> field ''tips'' v \<noteq> None)"

text \<open>
  What the handler of line 80 can turn into a record: a delivered value, or a delivered
  instance of \<^verbatim>\<open>Exception\<close> whose \<^verbatim>\<open>repr\<close> returns.
\<close>

fun recordable :: "pyval awaited \<Rightarrow> bool" where
  "recordable (Delivered (Returns v)) = True"
| "recordable (Delivered (Raises e)) =
     (is_Exception e \<and> (case py_repr e of Repr_returns r \<Rightarrow> True | Repr_raises x \<Rightarrow> False))"
| "recordable Never_resumes = False"

text \<open>
  A cycle the loop contains: the \<^verbatim>\<open>await\<close> of the snapshot delivers something
  recordable, and the insights transformer raises, if it raises, an instance of
  \<^verbatim>\<open>Exception\<close>.
\<close>

definition contained_cycle :: "bool \<Rightarrow> cycle_behaviour \<Rightarrow> bool" where
  "contained_cycle iscoroutinefunction b =
     (recordable (await_process_stream_once iscoroutinefunction (fst b)) \<and>
      (\<forall>s e. snd b s = Raises e \<longrightarrow> is_Exception e))"

definition loop_inv :: "loop_state \<Rightarrow> bool" where
  "loop_inv st =
     (is_LatestResult (latest st) \<and>
      ((field ''status'' (latest st) = Some (PStr ''starting'')) = (completed st = 0)))"

section \<open>The stats route\<close>

text \<open>
  What a route handler does: it returns a value (FastAPI answers 200 with it), raises
  \<^verbatim>\<open>HTTPException(status_code, detail)\<close>, or raises something else, which no handler
  of the application catches.
\<close>

datatype 'a handler_result = Returned 'a | HTTPException nat string | Uncaught pyexc

fun status_code :: "'a handler_result \<Rightarrow> nat" where
  "status_code (Returned _) = 200"
| "status_code (HTTPException code _) = code"
| "status_code (Uncaught _) = 500"

text \<open>\<^verbatim>\<open>api_stats\<close> (lines 127--132), reading the global once it is called.\<close>

definition api_stats :: "pyval \<Rightarrow> pyval handler_result" where
  "api_stats LATEST_STATS =
     (if LATEST_STATS = PNone then HTTPException 503 ''Stats not available yet''
      else Returned LATEST_STATS)"

section \<open>One refresh cycle, statement by statement\<close>

text \<open>
  The same iteration as a sequence of steps, for the readers that are served while it is
  under way. A configuration is the program point of the loop task, with the values of
  its locals, and the value bound to the global. The \<^verbatim>\<open>await\<close> of the snapshot, the
  insights call, the \<^verbatim>\<open>repr\<close> call and each of the two \<^verbatim>\<open>.get\<close> reads of the handler,
  and each assignment to the global are one step; the dict an assignment binds is built
  in locals before the step that binds it. \<^verbatim>\<open>Sleep\<close> is the end of the iteration,
  \<^verbatim>\<open>Raised\<close> the end of the task; an \<^verbatim>\<open>await\<close> that never resumes has no step.
\<close>

datatype pc =
    AwaitSnapshot
  | CallInsights pyval
  | AssignOk pyval pyval
  | CallRepr pyexc
  | ReadStats string
  | ReadTips string pyval
  | AssignError string pyval pyval
  | Sleep
  | Raised pyexc

type_synonym config = "pc \<times> pyval"

text \<open>
  Lines 64--67 (the snapshot), 70--73 (the insights), 75--79 (the assignment after a
  success), 80--87 (the handler: \<^verbatim>\<open>repr\<close>, two reads of the global, then the
  assignment).
\<close>

fun step :: "bool \<Rightarrow> cycle_behaviour \<Rightarrow> config \<Rightarrow> config option" where
  "step c b (AwaitSnapshot, g) =
     (case await_process_stream_once c (fst b) of
        Never_resumes \<Rightarrow> None
      | Delivered (Returns stats) \<Rightarrow> Some (CallInsights stats, g)
      | Delivered (Raises e) \<Rightarrow> Some (if is_Exception e then CallRepr e else Raised e, g))"
| "step c b (CallInsights stats, g) =
     (case snd b stats of
        Returns tips \<Rightarrow> Some (AssignOk stats tips, g)
      | Raises e \<Rightarrow>
          Some (if is_Exception e then AssignOk stats insights_marker else Raised e, g))"
| "step c b (AssignOk stats tips, g) =
     Some (Sleep, PDict [(''status'', PStr ''ok''), (''stats'', stats), (''tips'', tips)])"
| "step c b (CallRepr e, g) =
     (case py_repr e of
        Repr_returns r \<Rightarrow> Some (ReadStats r, g)
      | Repr_raises x \<Rightarrow> Some (Raised x, g))"
| "step c b (ReadStats r, g) =
     (case dict_get g ''stats'' (PDict []) of
        Returns stats \<Rightarrow> Some (ReadTips r stats, g)
      | Raises x \<Rightarrow> Some (Raised x, g))"
| "step c b (ReadTips r stats, g) =
     (case dict_get g ''tips'' (PDict []) of
        Returns tips \<Rightarrow> Some (AssignError r stats tips, g)
      | Raises x \<Rightarrow> Some (Raised x, g))"
| "step c b (AssignError r stats tips, g) =
     Some (Sleep, PDict [(''status'', PStr ''error''), (''error'', PStr r),
                         (''stats'', stats), (''tips'', tips)])"
| "step c b (Sleep, g) = None"
| "step c b (Raised e, g) = None"

section \<open>Shared objects and concurrent readers\<close>

text \<open>
  The heap gives what the object at an address holds at the moment, as a whole: a
  change anywhere inside the object is a write at its address. The loop stores
  the objects its collaborators return without copying them (lines 77, 78, 85, 86) and
  never writes into one; the pipeline that made them may. The JSON response of the stats
  route is made from the record when the request is served: it shows each object as the
  heap has it then.
\<close>

type_synonym heap = "nat \<Rightarrow> pyval"

fun render :: "heap \<Rightarrow> pyval \<Rightarrow> pyval" where
  "render h (PRef a) = h a"
| "render h (PList vs) = PList (map (render h) vs)"
| "render h (PDict kvs) = PDict (map (\<lambda>kv. (fst kv, render h (snd kv))) kvs)"
| "render h PNone = PNone"
| "render h (PBool b) = PBool b"
| "render h (PInt i) = PInt i"
| "render h (PStr s) = PStr s"

text \<open>The addresses of the objects a value holds.\<close>

fun refs :: "pyval \<Rightarrow> nat set" where
  "refs (PRef a) = {a}"
| "refs (PList vs) = (\<Union>v \<in> set vs. refs v)"
| "refs (PDict kvs) = (\<Union>kv \<in> set kvs. refs (snd kv))"
| "refs PNone = {}"
| "refs (PBool b) = {}"
| "refs (PInt i) = {}"
| "refs (PStr s) = {}"

text \<open>
  What happens while the service runs: the loop task takes its next step, or the
  pipeline overwrites what the object at an address holds. A world is a configuration
  of the loop task and a heap.
\<close>

datatype event = Loop_step | Write nat pyval

type_synonym world = "config \<times> heap"

fun apply_event :: "bool \<Rightarrow> cycle_behaviour \<Rightarrow> event \<Rightarrow> world \<Rightarrow> world" where
  "apply_event c b Loop_step (cfg, h) =
     (case step c b cfg of None \<Rightarrow> (cfg, h) | Some cfg' \<Rightarrow> (cfg', h))"
| "apply_event c b (Write a v) (cfg, h) = (cfg, h(a := v))"

text \<open>The worlds a sequence of events leads through; a request can be served in each.\<close>

fun run :: "bool \<Rightarrow> cycle_behaviour \<Rightarrow> event list \<Rightarrow> world \<Rightarrow> world list" where
  "run c b [] w = [w]"
| "run c b (ev # evs) w = w # run c b evs (apply_event c b ev w)"

text \<open>
  What a stats request served in a world is answered: the handler returns the record
  that is bound, and the response shows it as the heap has its objects.
\<close>

definition stats_response :: "world \<Rightarrow> pyval handler_result" where
  "stats_response w =
     (case api_stats (snd (fst w)) of
        Returned v \<Rightarrow> Returned (render (snd w) v)
      | HTTPException code detail \<Rightarrow> HTTPException code detail
      | Uncaught e \<Rightarrow> Uncaught e)"

text \<open>
  No write of the sequence touches an object of the record that is bound when the
  write happens.
\<close>

fun quiet :: "bool \<Rightarrow> cycle_behaviour \<Rightarrow> event list \<Rightarrow> world \<Rightarrow> bool" where
  "quiet c b [] w = True"
| "quiet c b (Loop_step # evs) w = quiet c b evs (apply_event c b Loop_step w)"
| "quiet c b (Write a v # evs) w =
     (a \<notin> refs (snd (fst w)) \<and> quiet c b evs (apply_event c b (Write a v) w))"

text \<open>
  Where an iteration started with the global \<open>g\<close> can be: before its assignment, with
  \<open>g\<close> still bound and locals that come from this iteration, or after it.
\<close>

fun on_track :: "bool \<Rightarrow> cycle_behaviour \<Rightarrow> pyval \<Rightarrow> config \<Rightarrow> bool" where
  "on_track c b g (AwaitSnapshot, g') = (g' = g)"
| "on_track c b g (CallInsights s, g') =
     (g' = g \<and> await_process_stream_once c (fst b) = Delivered (Returns s))"
| "on_track c b g (AssignOk s t, g') =
     (g' = g \<and> processing_cycle c (fst b) (snd b) g =
        Stored (PDict [(''status'', PStr ''ok''), (''stats'', s), (''tips'', t)]))"
| "on_track c b g (CallRepr e, g') =
     (g' = g \<and> await_process_stream_once c (fst b) = Delivered (Raises e) \<and> is_Exception e)"
| "on_track c b g (ReadStats r, g') =
     (g' = g \<and> (\<exists>e. await_process_stream_once c (fst b) = Delivered (Raises e)
                   \<and> is_Exception e \<and> py_repr e = Repr_returns r))"
| "on_track c b g (ReadTips r s, g') =
     (g' = g \<and> dict_get g ''stats'' (PDict []) = Returns s
      \<and> (\<exists>e. await_process_stream_once c (fst b) = Delivered (Raises e)
              \<and> is_Exception e \<and> py_repr e = Repr_returns r))"
| "on_track c b g (AssignError r s t, g') =
     (g' = g \<and> processing_cycle c (fst b) (snd b) g =
        Stored (PDict [(''status'', PStr ''error''), (''error'', PStr r),
                       (''stats'', s), (''tips'', t)]))"
| "on_track c b g (Sleep, g') = (processing_cycle c (fst b) (snd b) g = Stored g')"
| "on_track c b g (Raised x, g') =
     (g' = g \<and> processing_cycle c (fst b) (snd b) g = Propagated x)"

section \<open>Text files: UTF-8 and universal newlines\<close>

text \<open>
  \<^verbatim>\<open>Path.read_text(encoding="utf-8")\<close> decodes the bytes of the file strictly and
  translates the line endings \<^verbatim>\<open>\r\n\<close> and \<^verbatim>\<open>\r\<close> to \<^verbatim>\<open>\n\<close>; the HTML response
  encodes the returned \<^verbatim>\<open>str\<close> as UTF-8 again. A byte is an 8-bit word, a \<^verbatim>\<open>str\<close>
  the list of its code points.
\<close>

type_synonym byte = "8 word"
type_synonym pystr = "nat list"

text \<open>
  The well-formed byte sequences of UTF-8: a continuation byte is \<^verbatim>\<open>80..BF\<close>; after
  the lead bytes \<^verbatim>\<open>E0\<close>, \<^verbatim>\<open>ED\<close>, \<^verbatim>\<open>F0\<close> and \<^verbatim>\<open>F4\<close> the second byte is restricted
  further, which excludes overlong forms, surrogates and code points above
  \<^verbatim>\<open>10FFFF\<close>.
\<close>

definition is_continuation :: "byte \<Rightarrow> bool" where
  "is_continuation b = (0x80 \<le> b \<and> b \<le> 0xBF)"

definition second_of_three :: "byte \<Rightarrow> byte \<Rightarrow> bool" where
  "second_of_three b0 b1 =
     (if b0 = 0xE0 then 0xA0 \<le> b1 \<and> b1 \<le> 0xBF
      else if b0 = 0xED then 0x80 \<le> b1 \<and> b1 \<le> 0x9F
      else is_continuation b1)"

definition second_of_four :: "byte \<Rightarrow> byte \<Rightarrow> bool" where
  "second_of_four b0 b1 =
     (if b0 = 0xF0 then 0x90 \<le> b1 \<and> b1 \<le> 0xBF
      else if b0 = 0xF4 then 0x80 \<le> b1 \<and> b1 \<le> 0x8F
      else is_continuation b1)"

fun decode_two :: "byte \<Rightarrow> byte list \<Rightarrow> (nat \<times> byte list) option" where
  "decode_two b0 (b1 # r) =
     (if is_continuation b1
      then Some ((unat b0 - 0xC0) * 64 + (unat b1 - 0x80), r)
      else None)"
| "decode_two b0 [] = None"

fun decode_three :: "byte \<Rightarrow> byte list \<Rightarrow> (nat \<times> byte list) option" where
  "decode_three b0 (b1 # b2 # r) =
     (if second_of_three b0 b1 \<and> is_continuation b2
      then Some ((unat b0 - 0xE0) * 4096 + (unat b1 - 0x80) * 64 + (unat b2 - 0x80), r)
      else None)"
| "decode_three b0 [b1] = None"
| "decode_three b0 [] = None"

fun decode_four :: "byte \<Rightarrow> byte list \<Rightarrow> (nat \<times> byte list) option" where
  "decode_four b0 (b1 # b2 # b3 # r) =
     (if second_of_four b0 b1 \<and> is_continuation b2 \<and> is_continuation b3
      then Some ((unat b0 - 0xF0) * 262144 + (unat b1 - 0x80) * 4096
                 + (unat b2 - 0x80) * 64 + (unat b3 - 0x80), r)
      else None)"
| "decode_four b0 [b1, b2] = None"
| "decode_four b0 [b1] = None"
| "decode_four b0 [] = None"

fun decode_one :: "byte list \<Rightarrow> (nat \<times> byte list) option" where
  "decode_one [] = None"
| "decode_one (b0 # r) =
     (if b0 < 0x80 then Some (unat b0, r)
      else if 0xC2 \<le> b0 \<and> b0 \<le> 0xDF then decode_two b0 r
      else if 0xE0 \<le> b0 \<and> b0 \<le> 0xEF then decode_three b0 r
      else if 0xF0 \<le> b0 \<and> b0 \<le> 0xF4 then decode_four b0 r
      else None)"

text \<open>What one decoding step consumes, for the termination of the decoder.\<close>

lemma decode_two_Some:
  "decode_two b0 r0 = Some (cp, rest) \<Longrightarrow>
   \<exists>b1. r0 = b1 # rest \<and> is_continuation b1 \<and> cp = (unat b0 - 0xC0) * 64 + (unat b1 - 0x80)"
  by (cases "(b0, r0)" rule: decode_two.cases) (auto split: if_splits)

lemma decode_three_Some:
  "decode_three b0 r0 = Some (cp, rest) \<Longrightarrow>
   \<exists>b1 b2. r0 = b1 # b2 # rest \<and> second_of_three b0 b1 \<and> is_continuation b2 \<and>
     cp = (unat b0 - 0xE0) * 4096 + (unat b1 - 0x80) * 64 + (unat b2 - 0x80)"
  by (cases "(b0, r0)" rule: decode_three.cases) (auto split: if_splits)

lemma decode_four_Some:
  "decode_four b0 r0 = Some (cp, rest) \<Longrightarrow>
   \<exists>b1 b2 b3. r0 = b1 # b2 # b3 # rest \<and> second_of_four b0 b1 \<and> is_continuation b2 \<and>
     is_continuation b3 \<and>
     cp = (unat b0 - 0xF0) * 262144 + (unat b1 - 0x80) * 4096
          + (unat b2 - 0x80) * 64 + (unat b3 - 0x80)"
  by (cases "(b0, r0)" rule: decode_four.cases) (auto split: if_splits)

lemma decode_one_Some:
  assumes "decode_one bs = Some (cp, rest)"
  obtains b0 r0 where "bs = b0 # r0" and
    "(b0 < 0x80 \<and> cp = unat b0 \<and> rest = r0)
     \<or> (0xC2 \<le> b0 \<and> b0 \<le> 0xDF \<and> decode_two b0 r0 = Some (cp, rest))
     \<or> (0xE0 \<le> b0 \<and> b0 \<le> 0xEF \<and> decode_three b0 r0 = Some (cp, rest))
     \<or> (0xF0 \<le> b0 \<and> b0 \<le> 0xF4 \<and> decode_four b0 r0 = Some (cp, rest))"
  using assms by (cases bs) (auto split: if_splits)

lemma decode_one_shorter:
  assumes "decode_one bs = Some (cp, rest)"
  shows "length rest < length bs"
proof -
  from assms obtain b0 r0 where bs: "bs = b0 # r0" and
    c: "(b0 < 0x80 \<and> cp = unat b0 \<and> rest = r0)
     \<or> (0xC2 \<le> b0 \<and> b0 \<le> 0xDF \<and> decode_two b0 r0 = Some (cp, rest))
     \<or> (0xE0 \<le> b0 \<and> b0 \<le> 0xEF \<and> decode_three b0 r0 = Some (cp, rest))
     \<or> (0xF0 \<le> b0 \<and> b0 \<le> 0xF4 \<and> decode_four b0 r0 = Some (cp, rest))"
    by (rule decode_one_Some)
  from c have "length rest \<le> length r0"
    by (auto dest: decode_two_Some decode_three_Some decode_four_Some)
  with bs show ?thesis by simp
qed

text \<open>The strict decoder: \<open>None\<close> stands for \<^verbatim>\<open>UnicodeDecodeError\<close>.\<close>

function (sequential) utf8_decode :: "byte list \<Rightarrow> pystr option" where
  "utf8_decode [] = Some []"
| "utf8_decode (b # bs) =
     (case decode_one (b # bs) of
        None \<Rightarrow> None
      | Some (cp, rest) \<Rightarrow> map_option ((#) cp) (utf8_decode rest))"
  by pat_completeness auto
termination
  by (relation "measure length") (auto simp del: decode_one.simps dest!: decode_one_shorter)



text \<open>Universal newlines, as text mode applies them when reading.\<close>

fun translate_newlines :: "pystr \<Rightarrow> pystr" where
  "translate_newlines [] = []"
| "translate_newlines [c] = [if c = 13 then 10 else c]"
| "translate_newlines (c # d # cs) =
     (if c = 13 \<and> d = 10 then 10 # translate_newlines cs
      else if c = 13 then 10 # translate_newlines (d # cs)
      else c # translate_newlines (d # cs))"

section \<open>The page routes\<close>

text \<open>
  The part of the file system the handlers look at: what a path names, if anything.
\<close>

datatype node = File "byte list" | Directory

type_synonym filesystem = "string \<Rightarrow> node option"

definition UnicodeDecodeError :: pyexc where
  "UnicodeDecodeError = PyExc Exception_subclass (Repr_returns ''UnicodeDecodeError()'')"

definition IsADirectoryError :: pyexc where
  "IsADirectoryError = PyExc Exception_subclass (Repr_returns ''IsADirectoryError()'')"

definition FileNotFoundError :: pyexc where
  "FileNotFoundError = PyExc Exception_subclass (Repr_returns ''FileNotFoundError()'')"

text \<open>\<^verbatim>\<open>Path.exists()\<close> and \<^verbatim>\<open>Path.read_text(encoding="utf-8")\<close>.\<close>

definition path_exists :: "filesystem \<Rightarrow> string \<Rightarrow> bool" where
  "path_exists fs p = (fs p \<noteq> None)"

definition read_text :: "filesystem \<Rightarrow> string \<Rightarrow> pystr outcome" where
  "read_text fs p =
     (case fs p of
        None \<Rightarrow> Raises FileNotFoundError
      | Some Directory \<Rightarrow> Raises IsADirectoryError
      | Some (File bs) \<Rightarrow>
          (case utf8_decode bs of
             None \<Rightarrow> Raises UnicodeDecodeError
           | Some text \<Rightarrow> Returns (translate_newlines text)))"

text \<open>
  \<^verbatim>\<open>_read_frontend_html\<close> (lines 93--98). Every caller passes a plain file name, so
  \<^verbatim>\<open>Path("frontend") / name\<close> is the name under \<^verbatim>\<open>frontend/\<close>. An exception of
  \<^verbatim>\<open>read_text\<close> is not caught here, nor by the route handlers.
\<close>

definition read_frontend_html :: "filesystem \<Rightarrow> string \<Rightarrow> pystr handler_result" where
  "read_frontend_html fs name =
     (let html_path = ''frontend/'' @ name in
      if \<not> path_exists fs html_path then HTTPException 404 (name @ '' not found'')
      else (case read_text fs html_path of
              Returns text \<Rightarrow> Returned text
            | Raises e \<Rightarrow> Uncaught e))"

text \<open>The five route handlers (lines 101--124) and the table of their routes.\<close>

definition home :: "filesystem \<Rightarrow> pystr handler_result" where
  "home fs = read_frontend_html fs ''analysis.html''"

definition analysis_page :: "filesystem \<Rightarrow> pystr handler_result" where
  "analysis_page fs = read_frontend_html fs ''analysis.html''"

definition technique_page :: "filesystem \<Rightarrow> pystr handler_result" where
  "technique_page fs = read_frontend_html fs ''technique.html''"

definition tactical_page :: "filesystem \<Rightarrow> pystr handler_result" where
  "tactical_page fs = read_frontend_html fs ''tactical.html''"

definition highlights_page :: "filesystem \<Rightarrow> pystr handler_result" where
  "highlights_page fs = read_frontend_html fs ''highlights.html''"

definition page_routes :: "(string \<times> (filesystem \<Rightarrow> pystr handler_result) \<times> string) list" where
  "page_routes =
     [(''/'', home, ''analysis.html''),
      (''/analysis.html'', analysis_page, ''analysis.html''),
      (''/technique.html'', technique_page, ''technique.html''),
      (''/tactical.html'', tactical_page, ''tactical.html''),
      (''/highlights.html'', highlights_page, ''highlights.html'')]"


section \<open>Example inputs\<close>

text \<open>
  A transformer that raises a given exception; an instance of \<^verbatim>\<open>Exception\<close> whose
  \<^verbatim>\<open>__repr__\<close> raises; a \<^verbatim>\<open>StopIteration\<close> and a
  \<^verbatim>\<open>concurrent.futures.CancelledError\<close>.
\<close>

definition failing_generate_insights :: "pyexc \<Rightarrow> pyval \<Rightarrow> pyval outcome" where
  "failing_generate_insights e stats = Raises e"

definition unprintable_error :: pyexc where
  "unprintable_error = PyExc Exception_subclass (Repr_raises RuntimeError)"

definition stop_iteration :: pyexc where
  "stop_iteration = PyExc StopIteration (Repr_returns ''StopIteration()'')"

definition futures_cancelled :: pyexc where
  "futures_cancelled = PyExc Futures_CancelledError (Repr_returns ''CancelledError()'')"

text \<open>
  A pipeline that keeps one dict, at address 0, and returns it from every snapshot
  call. The record of its first cycle is bound; during the second call it updates the
  rally count, then the heat maps, then returns the dict; the insights of the second
  cycle follow and are bound with it.
\<close>

definition reused_stats_1 :: pyval where
  "reused_stats_1 = PDict [(''rally_count'', PInt 1), (''heatmaps'', PDict [(''cycle'', PInt 1)])]"

definition reused_stats_mixed :: pyval where
  "reused_stats_mixed =
     PDict [(''rally_count'', PInt 2), (''heatmaps'', PDict [(''cycle'', PInt 1)])]"

definition reused_stats_2 :: pyval where
  "reused_stats_2 = PDict [(''rally_count'', PInt 2), (''heatmaps'', PDict [(''cycle'', PInt 2)])]"

definition tips_of_cycle :: "int \<Rightarrow> pyval" where
  "tips_of_cycle n = PDict [(''tips'', PList [PInt n])]"

definition record_of_cycle :: "pyval \<Rightarrow> int \<Rightarrow> pyval" where
  "record_of_cycle stats n =
     PDict [(''status'', PStr ''ok''), (''stats'', stats), (''tips'', tips_of_cycle n)]"

definition insights_of_cycle_2 :: "pyval \<Rightarrow> pyval outcome" where
  "insights_of_cycle_2 stats = Returns (tips_of_cycle 2)"

definition reusing_cycle_2 :: cycle_behaviour where
  "reusing_cycle_2 = (Returns (PRef 0), insights_of_cycle_2)"

definition reusing_events :: "event list" where
  "reusing_events =
     [Write 0 reused_stats_mixed, Write 0 reused_stats_2, Loop_step, Loop_step, Loop_step]"

definition heap_after_cycle_1 :: heap where
  "heap_after_cycle_1 = (\<lambda>a. PNone)(0 := reused_stats_1)"

definition world_after_cycle_1 :: world where
  "world_after_cycle_1 = ((AwaitSnapshot, record_of_cycle (PRef 0) 1), heap_after_cycle_1)"

text \<open>
  A pipeline that makes a new dict for every snapshot: while the record of the first
  cycle, with the dict at address 0, is bound, it fills the dict at address 1 and
  returns it.
\<close>

definition fresh_cycle_2 :: cycle_behaviour where
  "fresh_cycle_2 = (Returns (PRef 1), insights_of_cycle_2)"

definition fresh_events :: "event list" where
  "fresh_events =
     [Write 1 reused_stats_mixed, Write 1 reused_stats_2, Loop_step, Loop_step, Loop_step]"


definition fs_crlf :: filesystem where
  "fs_crlf = [''frontend/analysis.html'' \<mapsto> File [0x61, 0x0D, 0x0A]]"

definition fs_pages :: filesystem where
  "fs_pages = [''frontend/technique.html'' \<mapsto> File [0x3C, 0x70, 0x3E, 0xC3, 0xA9],
               ''frontend/tactical.html'' \<mapsto> File [0xFF, 0xFE, 0x3C, 0x00]]"

section \<open>Properties of the awaits\<close>

lemma await_Returns:
  "await_process_stream_once c (Returns s) = Delivered (Returns s)"
  by (simp add: await_process_stream_once_def await_coroutine_def to_thread_def)


lemma recordable_Raises:
  "recordable (Delivered (Raises e)) = (is_Exception e \<and> (\<exists>r. py_repr e = Repr_returns r))"
  by (cases "py_repr e") simp_all

lemma recordable_coroutine:
  "recordable (await_process_stream_once True (Raises e)) =
     (exc_class e = StopIteration \<or> (\<exists>v. exc_class e = StopIteration_subclass v)
      \<or> is_Exception e \<and> (\<exists>r. py_repr e = Repr_returns r))"
  by (cases "exc_class e"; cases "py_repr e")
     (simp_all add: await_process_stream_once_def await_coroutine_def is_Exception_def
        coroutine_raised_StopIteration_def)

lemma recordable_to_thread:
  "recordable (await_process_stream_once False (Raises e)) =
     ((\<exists>v. exc_class e = StopIteration_subclass v)
      \<or> exc_class e = Exception_subclass \<and> (\<exists>r. py_repr e = Repr_returns r))"
  by (cases "exc_class e"; cases "py_repr e")
     (simp_all add: await_process_stream_once_def to_thread_def is_Exception_def)

section \<open>Properties of one refresh cycle\<close>

lemma is_LatestResult_init: "is_LatestResult LATEST_STATS_init"
  by (simp add: is_LatestResult_def LATEST_STATS_init_def field_def)

lemma field_ok_record:
  "field ''status'' (PDict [(''status'', PStr ''ok''), (''stats'', s), (''tips'', t)]) = Some (PStr ''ok'')"
  "field ''stats'' (PDict [(''status'', PStr ''ok''), (''stats'', s), (''tips'', t)]) = Some s"
  "field ''tips'' (PDict [(''status'', PStr ''ok''), (''stats'', s), (''tips'', t)]) = Some t"
  "field ''error'' (PDict [(''status'', PStr ''ok''), (''stats'', s), (''tips'', t)]) = None"
  by (simp_all add: field_def)

lemma field_error_record:
  "field ''status'' (PDict [(''status'', PStr ''error''), (''error'', d), (''stats'', s), (''tips'', t)]) = Some (PStr ''error'')"
  "field ''stats'' (PDict [(''status'', PStr ''error''), (''error'', d), (''stats'', s), (''tips'', t)]) = Some s"
  "field ''tips'' (PDict [(''status'', PStr ''error''), (''error'', d), (''stats'', s), (''tips'', t)]) = Some t"
  "field ''error'' (PDict [(''status'', PStr ''error''), (''error'', d), (''stats'', s), (''tips'', t)]) = Some d"
  by (simp_all add: field_def)

lemma try_body_ok:
  "generate_insights s = Returns t \<Longrightarrow>
   try_body (Returns s) generate_insights =
     Returns (PDict [(''status'', PStr ''ok''), (''stats'', s), (''tips'', t)])"
  by (simp add: try_body_def try_generate_insights_def)

lemma try_body_marker:
  "generate_insights s = Raises e \<Longrightarrow> is_Exception e \<Longrightarrow>
   try_body (Returns s) generate_insights =
     Returns (PDict [(''status'', PStr ''ok''), (''stats'', s), (''tips'', insights_marker)])"
  by (simp add: try_body_def try_generate_insights_def)

lemma try_body_cases:
  "(\<exists>s t. try_body d g =
      Returns (PDict [(''status'', PStr ''ok''), (''stats'', s), (''tips'', t)]))
   \<or> (\<exists>e. try_body d g = Raises e \<and>
         (d = Raises e \<or> (\<exists>s. d = Returns s \<and> g s = Raises e \<and> \<not> is_Exception e)))"
  by (auto simp: try_body_def try_generate_insights_def split: outcome.splits)

lemma except_handler_fields:
  "py_repr e = Repr_returns r \<Longrightarrow> field ''stats'' v = Some s \<Longrightarrow> field ''tips'' v = Some t \<Longrightarrow>
   except_handler e v =
     Returns (PDict [(''status'', PStr ''error''), (''error'', PStr r),
                     (''stats'', s), (''tips'', t)])"
  by (auto simp: except_handler_def dict_get_def field_def split: pyval.splits)

lemma except_handler_Returns:
  assumes "except_handler e v = Returns new" and "field ''stats'' v = Some s"
    and "field ''tips'' v = Some t"
  shows "\<exists>r. new = PDict [(''status'', PStr ''error''), (''error'', PStr r),
                     (''stats'', s), (''tips'', t)]"
proof (cases "py_repr e")
  case (Repr_returns r)
  from except_handler_fields [OF this assms(2,3)] assms(1) show ?thesis by auto
next
  case (Repr_raises x)
  with assms(1) show ?thesis by (simp add: except_handler_def)
qed

lemma processing_cycle_error:
  assumes "await_process_stream_once c p = Delivered (Raises e)"
    and "is_Exception e" and "py_repr e = Repr_returns r"
    and "field ''stats'' v = Some s" and "field ''tips'' v = Some t"
  shows "processing_cycle c p g v =
     Stored (PDict [(''status'', PStr ''error''), (''error'', PStr r),
                     (''stats'', s), (''tips'', t)])"
  using assms(1,2) except_handler_fields [OF assms(3,4,5)]
  by (simp add: processing_cycle_def try_body_def)

lemma processing_cycle_Stored:
  assumes "processing_cycle c p g v = Stored new" and "is_LatestResult v"
  shows "is_LatestResult new \<and> field ''status'' new \<noteq> Some (PStr ''starting'')"
proof -
  from assms(2) obtain s t where st: "field ''stats'' v = Some s" "field ''tips'' v = Some t"
    by (auto simp: is_LatestResult_def)
  from assms(1) obtain d where d: "await_process_stream_once c p = Delivered d"
    by (cases "await_process_stream_once c p") (simp_all add: processing_cycle_def)
  from try_body_cases [of d g] show ?thesis
  proof
    assume "\<exists>s t. try_body d g =
      Returns (PDict [(''status'', PStr ''ok''), (''stats'', s), (''tips'', t)])"
    then obtain s' t' where "try_body d g =
      Returns (PDict [(''status'', PStr ''ok''), (''stats'', s'), (''tips'', t')])"
      by blast
    with assms(1) d have "new = PDict [(''status'', PStr ''ok''), (''stats'', s'), (''tips'', t')]"
      by (simp add: processing_cycle_def)
    then show ?thesis by (simp add: is_LatestResult_def field_ok_record)
  next
    assume "\<exists>e. try_body d g = Raises e \<and>
         (d = Raises e \<or> (\<exists>s. d = Returns s \<and> g s = Raises e \<and> \<not> is_Exception e))"
    then obtain e where e: "try_body d g = Raises e" by blast
    with assms(1) d have "except_handler e v = Returns new"
      by (auto simp: processing_cycle_def split: if_splits outcome.splits)
    from except_handler_Returns [OF this st] obtain r where
      "new = PDict [(''status'', PStr ''error''), (''error'', PStr r),
                    (''stats'', s), (''tips'', t)]" by blast
    then show ?thesis by (simp add: is_LatestResult_def field_error_record)
  qed
qed

lemma processing_cycle_total:
  assumes "contained_cycle c (p, g)" and "is_LatestResult v"
  shows "\<exists>new. processing_cycle c p g v = Stored new"
proof -
  from assms(2) obtain s t where st: "field ''stats'' v = Some s" "field ''tips'' v = Some t"
    by (auto simp: is_LatestResult_def)
  from assms(1) have rec: "recordable (await_process_stream_once c p)"
    and ins: "\<forall>s e. g s = Raises e \<longrightarrow> is_Exception e"
    by (simp_all add: contained_cycle_def)
  from rec obtain d where d: "await_process_stream_once c p = Delivered d"
    by (cases "await_process_stream_once c p") simp_all
  from try_body_cases [of d g] show ?thesis
  proof
    assume "\<exists>s t. try_body d g =
      Returns (PDict [(''status'', PStr ''ok''), (''stats'', s), (''tips'', t)])"
    with d show ?thesis by (auto simp: processing_cycle_def)
  next
    assume "\<exists>e. try_body d g = Raises e \<and>
         (d = Raises e \<or> (\<exists>s. d = Returns s \<and> g s = Raises e \<and> \<not> is_Exception e))"
    then obtain e where e: "try_body d g = Raises e"
      and c: "d = Raises e \<or> (\<exists>s. d = Returns s \<and> g s = Raises e \<and> \<not> is_Exception e)"
      by blast
    from c ins have de: "d = Raises e" by blast
    with rec d have "recordable (Delivered (Raises e))" by simp
    then have "is_Exception e" and "\<exists>r. py_repr e = Repr_returns r"
      unfolding recordable_Raises by blast+
    then obtain r where r: "py_repr e = Repr_returns r" by blast
    from processing_cycle_error [OF d [unfolded de] \<open>is_Exception e\<close> r st]
    show ?thesis by blast
  qed
qed

section \<open>Properties of the loop\<close>

lemma loop_inv_start: "loop_inv (loop_start LATEST_STATS_init)"
  by (simp add: loop_inv_def loop_start_def is_LatestResult_init)
     (simp add: LATEST_STATS_init_def field_def)

lemma loop_iteration_inv: "loop_inv st \<Longrightarrow> loop_inv (loop_iteration c st b)"
  by (auto simp: loop_inv_def loop_iteration_def dest: processing_cycle_Stored
           split: task_state.splits cycle_result.splits)

lemma foldl_loop_inv: "loop_inv st \<Longrightarrow> loop_inv (foldl (loop_iteration c) st schedule)"
  by (induction schedule arbitrary: st) (simp_all add: loop_iteration_inv)

lemma loop_inv_processing_loop: "loop_inv (processing_loop c schedule)"
  by (simp add: processing_loop_def foldl_loop_inv loop_inv_start)

lemma loop_iteration_total:
  assumes "loop_inv st" "task st = Running" "contained_cycle c b"
  shows "task (loop_iteration c st b) = Running \<and>
         completed (loop_iteration c st b) = Suc (completed st)"
proof -
  from assms(1) have "is_LatestResult (latest st)" by (simp add: loop_inv_def)
  with assms(3) obtain new where "processing_cycle c (fst b) (snd b) (latest st) = Stored new"
    using processing_cycle_total [of c "fst b" "snd b" "latest st"] by auto
  with assms(2) show ?thesis by (simp add: loop_iteration_def)
qed

lemma foldl_total:
  "loop_inv st \<Longrightarrow> task st = Running \<Longrightarrow>
   \<forall>b \<in> set schedule. contained_cycle c b \<Longrightarrow>
   task (foldl (loop_iteration c) st schedule) = Running \<and>
   completed (foldl (loop_iteration c) st schedule) = completed st + length schedule"
proof (induction schedule arbitrary: st)
  case Nil
  then show ?case by simp
next
  case (Cons b bs)
  from Cons.prems have a: "task (loop_iteration c st b) = Running"
    and n: "completed (loop_iteration c st b) = Suc (completed st)"
    using loop_iteration_total [of st c b] by auto
  from Cons.prems have i: "loop_inv (loop_iteration c st b)" by (simp add: loop_iteration_inv)
  from Cons.IH [OF i a] Cons.prems(3) n show ?case by simp
qed

section \<open>Properties of the steps of a cycle\<close>

lemma step_on_track:
  assumes "on_track c b g cfg" and "step c b cfg = Some cfg'"
  shows "on_track c b g cfg'"
proof (cases cfg)
  case (Pair p g')
  show ?thesis
  proof (cases p)
    case AwaitSnapshot
    with Pair assms show ?thesis
      by (auto simp: processing_cycle_def try_body_def
            split: awaited.splits outcome.splits if_splits)
  next
    case (CallInsights s)
    with Pair assms show ?thesis
      by (auto simp: processing_cycle_def try_body_def try_generate_insights_def
            split: outcome.splits if_splits)
  next
    case (AssignOk s t)
    with Pair assms show ?thesis by auto
  next
    case (CallRepr e)
    with Pair assms show ?thesis
      by (auto simp: processing_cycle_def try_body_def except_handler_def
            split: py_repr.splits)
  next
    case (ReadStats r)
    with Pair assms show ?thesis
      by (auto simp: processing_cycle_def try_body_def except_handler_def
            split: outcome.splits)
  next
    case (ReadTips r s)
    with Pair assms show ?thesis
      by (auto simp: processing_cycle_def try_body_def except_handler_def
            split: outcome.splits)
  next
    case (AssignError r s t)
    with Pair assms show ?thesis by auto
  next
    case Sleep
    with Pair assms show ?thesis by simp
  next
    case (Raised x)
    with Pair assms show ?thesis by simp
  qed
qed

lemma on_track_bound:
  assumes "on_track c b g (p, g')"
  shows "p \<noteq> Sleep \<and> g' = g \<or> p = Sleep \<and> processing_cycle c (fst b) (snd b) g = Stored g'"
  using assms by (cases p) simp_all

lemma render_frame: "a \<notin> refs v \<Longrightarrow> render (h(a := x)) v = render h v"
  by (induction v) auto

section \<open>Properties of readers and writes\<close>

lemma ball_Cons: "(\<forall>w \<in> set (x # xs). P w) = (P x \<and> (\<forall>w \<in> set xs. P w))"
  by simp

lemma run_asleep:
  assumes "quiet c b evs ((Sleep, g1), h1)"
  shows "\<forall>w \<in> set (run c b evs ((Sleep, g1), h1)).
           fst w = (Sleep, g1) \<and> render (snd w) g1 = render h1 g1"
  using assms
proof (induction evs arbitrary: h1)
  case Nil
  then show ?case by simp
next
  case (Cons ev evs)
  show ?case
  proof (cases ev)
    case Loop_step
    with Cons.prems have "quiet c b evs ((Sleep, g1), h1)" by simp
    from Cons.IH [OF this] Loop_step show ?thesis by simp
  next
    case (Write a v)
    with Cons.prems have a: "a \<notin> refs g1" and q: "quiet c b evs ((Sleep, g1), h1(a := v))"
      by simp_all
    have fr: "render (h1(a := v)) g1 = render h1 g1" by (rule render_frame [OF a])
    have e: "run c b (ev # evs) ((Sleep, g1), h1)
               = ((Sleep, g1), h1) # run c b evs ((Sleep, g1), h1(a := v))"
      using Write by simp
    note ih = Cons.IH [OF q, unfolded fr]
    show ?thesis unfolding e ball_Cons
    proof (rule conjI)
      show "fst ((Sleep, g1), h1) = (Sleep, g1)
            \<and> render (snd ((Sleep, g1), h1)) g1 = render h1 g1" by simp
    qed (rule ih)
  qed
qed

lemma run_bound:
  assumes "on_track c b g cfg"
  shows "\<forall>w \<in> set (run c b evs (cfg, h)). on_track c b g (fst w)"
  using assms
proof (induction evs arbitrary: cfg h)
  case Nil
  then show ?case by simp
next
  case (Cons ev evs)
  show ?case
  proof (cases ev)
    case Loop_step
    show ?thesis
    proof (cases "step c b cfg")
      case None
      with Cons Loop_step show ?thesis by simp
    next
      case (Some cfg')
      from step_on_track [OF Cons.prems Some] have "on_track c b g cfg'" .
      from Cons.IH [OF this] Cons.prems Loop_step Some show ?thesis by simp
    qed
  next
    case (Write a v)
    with Cons show ?thesis by simp
  qed
qed

lemma run_quiet:
  assumes "on_track c b g (p, g)" and "p \<noteq> Sleep" and "quiet c b evs ((p, g), h')"
    and "render h' g = view"
  shows "\<exists>nxt. \<forall>w \<in> set (run c b evs ((p, g), h')).
           snd (fst w) = g \<and> render (snd w) g = view
         \<or> processing_cycle c (fst b) (snd b) g = Stored (snd (fst w))
           \<and> render (snd w) (snd (fst w)) = nxt"
  using assms
proof (induction evs arbitrary: p h')
  case Nil
  then show ?case by simp
next
  case (Cons ev evs)
  show ?case
  proof (cases ev)
    case (Write a v)
    with Cons.prems(3) have a: "a \<notin> refs g" and q: "quiet c b evs ((p, g), h'(a := v))"
      by simp_all
    from render_frame [OF a] Cons.prems(4) have "render (h'(a := v)) g = view" by simp
    from Cons.IH [OF Cons.prems(1,2) q this] obtain nxt where
      ih: "\<forall>w \<in> set (run c b evs ((p, g), h'(a := v))).
           snd (fst w) = g \<and> render (snd w) g = view
         \<or> processing_cycle c (fst b) (snd b) g = Stored (snd (fst w))
           \<and> render (snd w) (snd (fst w)) = nxt" by blast
    have e: "run c b (ev # evs) ((p, g), h') = ((p, g), h') # run c b evs ((p, g), h'(a := v))"
      using Write by simp
    have "\<forall>w \<in> set (run c b (ev # evs) ((p, g), h')).
           snd (fst w) = g \<and> render (snd w) g = view
         \<or> processing_cycle c (fst b) (snd b) g = Stored (snd (fst w))
           \<and> render (snd w) (snd (fst w)) = nxt"
      unfolding e ball_Cons
    proof (rule conjI)
      from Cons.prems(4)
      show "snd (fst ((p, g), h')) = g \<and> render (snd ((p, g), h')) g = view
         \<or> processing_cycle c (fst b) (snd b) g = Stored (snd (fst ((p, g), h')))
           \<and> render (snd ((p, g), h')) (snd (fst ((p, g), h'))) = nxt" by simp
    qed (rule ih)
    then show ?thesis by blast
  next
    case Loop_step
    show ?thesis
    proof (cases "step c b (p, g)")
      case None
      with Cons.prems(3) Loop_step have q: "quiet c b evs ((p, g), h')" by simp
      from Cons.IH [OF Cons.prems(1,2) q Cons.prems(4)] Cons.prems(4) Loop_step None
      show ?thesis by auto
    next
      case (Some cfg')
      obtain p' g' where cfg': "cfg' = (p', g')" by (cases cfg')
      from step_on_track [OF Cons.prems(1) Some] cfg' have t: "on_track c b g (p', g')" by simp
      from Cons.prems(3) Loop_step Some cfg' have q: "quiet c b evs ((p', g'), h')" by simp
      show ?thesis
      proof (cases "p' = Sleep")
        case True
        with t have s: "processing_cycle c (fst b) (snd b) g = Stored g'" by simp
        from run_asleep [of c b evs g' h'] q True
        have "\<forall>w \<in> set (run c b evs ((Sleep, g'), h')).
                fst w = (Sleep, g') \<and> render (snd w) g' = render h' g'" by simp
        with s Cons.prems(4) Loop_step Some cfg' True show ?thesis
          by (intro exI [of _ "render h' g'"]) auto
      next
        case False
        with on_track_bound [OF t] have g': "g' = g" by simp
        from Cons.IH [OF t [unfolded g'] False q [unfolded g'] Cons.prems(4)]
          Cons.prems(4) Loop_step Some cfg' g'
        show ?thesis by auto
      qed
    qed
  qed
qed

section \<open>Properties of the codec\<close>


lemma byte_of_unat: "n = unat (b::byte) \<Longrightarrow> of_nat n = b"
  by simp

























section \<open>Properties of the page handlers\<close>

lemma page_routes_handler:
  "(route, handler, name) \<in> set page_routes \<Longrightarrow> handler = (\<lambda>fs. read_frontend_html fs name)"
  by (auto simp: page_routes_def home_def analysis_page_def technique_page_def
        tactical_page_def highlights_page_def fun_eq_iff)


lemma read_frontend_html_decodable:
  "fs (''frontend/'' @ name) = Some (File bs) \<Longrightarrow> utf8_decode bs = Some text \<Longrightarrow>
   read_frontend_html fs name = Returned (translate_newlines text)"
  by (simp add: read_frontend_html_def path_exists_def read_text_def)

lemma read_frontend_html_undecodable:
  "fs (''frontend/'' @ name) = Some (File bs) \<Longrightarrow> utf8_decode bs = None \<Longrightarrow>
   read_frontend_html fs name = Uncaught UnicodeDecodeError"
  by (simp add: read_frontend_html_def path_exists_def read_text_def)

lemma read_frontend_html_directory:
  "fs (''frontend/'' @ name) = Some Directory \<Longrightarrow>
   read_frontend_html fs name = Uncaught IsADirectoryError"
  by (simp add: read_frontend_html_def path_exists_def read_text_def)

lemma read_frontend_html_Returned:
  assumes "read_frontend_html fs name = Returned text"
  shows "\<exists>bs cs. fs (''frontend/'' @ name) = Some (File bs) \<and> utf8_decode bs = Some cs
           \<and> text = translate_newlines cs"
  using assms
  by (auto simp: read_frontend_html_def path_exists_def read_text_def Let_def
           split: if_splits option.splits node.splits)


lemma utf8_decode_latin1: "utf8_decode [0x63, 0x61, 0x66, 0xE9] = None"
  by simp

lemma utf8_decode_utf16: "utf8_decode [0xFF, 0xFE, 0x3C, 0x00] = None"
  by simp

lemma utf8_decode_crlf: "utf8_decode [0x61, 0x0D, 0x0A] = Some [97, 13, 10]"
  by simp

section \<open>The claims\<close>

text \<open>
  C1 (as amended). The loop contains every failure of the pipeline that reaches it as
  an instance of \<^verbatim>\<open>Exception\<close> whose \<^verbatim>\<open>repr\<close> returns. Over any schedule in which the
  \<^verbatim>\<open>await\<close> of the snapshot delivers a value or such an exception, and the insights
  transformer returns or raises an instance of \<^verbatim>\<open>Exception\<close>, no exception leaves the
  loop and every cycle completes; a single such cycle started from any LatestResult
  record stores a value; and a delivered failure is stored as a record of status
  \<^verbatim>\<open>error\<close>. A raise of a coroutine function is delivered so when it is a
  \<^verbatim>\<open>StopIteration\<close> of any class or an instance of \<^verbatim>\<open>Exception\<close> whose \<^verbatim>\<open>repr\<close> returns;
  a raise of a function run through \<^verbatim>\<open>asyncio.to_thread\<close> when it is an instance of
  \<^verbatim>\<open>Exception\<close> whose \<^verbatim>\<open>repr\<close> returns, other than \<^verbatim>\<open>StopIteration\<close> and its
  subclasses and \<^verbatim>\<open>concurrent.futures.CancelledError\<close> (an instance of a subclass of
  \<^verbatim>\<open>StopIteration\<close> is delivered as a return).
\<close>

theorem processing_loop_contains_recordable:
  assumes "\<forall>b \<in> set schedule. contained_cycle iscoroutinefunction b"
  shows "task (processing_loop iscoroutinefunction schedule) = Running
       \<and> completed (processing_loop iscoroutinefunction schedule) = length schedule
       \<and> (\<forall>p g v. contained_cycle iscoroutinefunction (p, g) \<and> is_LatestResult v \<longrightarrow>
            (\<exists>new. processing_cycle iscoroutinefunction p g v = Stored new))
       \<and> (\<forall>p e g v. await_process_stream_once iscoroutinefunction p = Delivered (Raises e)
              \<and> recordable (Delivered (Raises e)) \<and> is_LatestResult v \<longrightarrow>
            (\<exists>new. processing_cycle iscoroutinefunction p g v = Stored new
                 \<and> field ''status'' new = Some (PStr ''error'')))
       \<and> (\<forall>e. recordable (await_process_stream_once True (Raises e)) =
            (exc_class e = StopIteration \<or> (\<exists>v. exc_class e = StopIteration_subclass v)
             \<or> is_Exception e \<and> (\<exists>r. py_repr e = Repr_returns r)))
       \<and> (\<forall>e. recordable (await_process_stream_once False (Raises e)) =
            ((\<exists>v. exc_class e = StopIteration_subclass v)
             \<or> exc_class e = Exception_subclass \<and> (\<exists>r. py_repr e = Repr_returns r)))"
proof -
  have 1: "task (processing_loop iscoroutinefunction schedule) = Running
       \<and> completed (processing_loop iscoroutinefunction schedule) = length schedule"
    using foldl_total [OF loop_inv_start _ assms]
    by (simp add: processing_loop_def) (simp add: loop_start_def)
  have 2: "\<forall>p g v. contained_cycle iscoroutinefunction (p, g) \<and> is_LatestResult v \<longrightarrow>
            (\<exists>new. processing_cycle iscoroutinefunction p g v = Stored new)"
    using processing_cycle_total by blast
  have 3: "\<forall>p e g v. await_process_stream_once iscoroutinefunction p = Delivered (Raises e)
              \<and> recordable (Delivered (Raises e)) \<and> is_LatestResult v \<longrightarrow>
            (\<exists>new. processing_cycle iscoroutinefunction p g v = Stored new
                 \<and> field ''status'' new = Some (PStr ''error''))"
  proof (intro allI impI)
    fix p e g v
    assume a: "await_process_stream_once iscoroutinefunction p = Delivered (Raises e)
              \<and> recordable (Delivered (Raises e)) \<and> is_LatestResult v"
    then obtain s t where st: "field ''stats'' v = Some s" "field ''tips'' v = Some t"
      by (auto simp: is_LatestResult_def)
    from a have "is_Exception e" and "\<exists>r. py_repr e = Repr_returns r"
      unfolding recordable_Raises by blast+
    then obtain r where r: "py_repr e = Repr_returns r" by blast
    from a have d: "await_process_stream_once iscoroutinefunction p = Delivered (Raises e)"
      by blast
    from processing_cycle_error [OF d \<open>is_Exception e\<close> r st]
    show "\<exists>new. processing_cycle iscoroutinefunction p g v = Stored new
                 \<and> field ''status'' new = Some (PStr ''error'')"
      by (simp add: field_error_record)
  qed
  from 1 2 3 recordable_coroutine recordable_to_thread show ?thesis by blast
qed

theorem processing_loop_contains_recordable_witness:
  "task (processing_loop False
      [(Raises RuntimeError, stub_generate_insights),
       (stub_process_stream_once, failing_generate_insights RuntimeError)]) = Running
   \<and> completed (processing_loop False
      [(Raises RuntimeError, stub_generate_insights),
       (stub_process_stream_once, failing_generate_insights RuntimeError)]) = 2"
proof -
  have h: "\<forall>b \<in> set [(Raises RuntimeError, stub_generate_insights),
       (stub_process_stream_once, failing_generate_insights RuntimeError)].
         contained_cycle False b"
    by (simp add: contained_cycle_def RuntimeError_def stub_process_stream_once_def
          stub_generate_insights_def failing_generate_insights_def is_Exception_def
          await_process_stream_once_def to_thread_def)
  from processing_loop_contains_recordable [OF h] show ?thesis by simp
qed

text \<open>
  C1 as stated fails, in four ways. A snapshot function that raises \<^verbatim>\<open>SystemExit\<close>,
  which \<^verbatim>\<open>except Exception\<close> does not match, ends the loop in its first cycle. So
  does one that raises an instance of \<^verbatim>\<open>Exception\<close> whose \<^verbatim>\<open>__repr__\<close> raises: the
  handler calls \<^verbatim>\<open>repr(e)\<close>. A synchronous one that raises \<^verbatim>\<open>StopIteration\<close> leaves the
  loop waiting for ever in its first cycle, and a synchronous one that raises
  \<^verbatim>\<open>concurrent.futures.CancelledError\<close> ends the loop with an
  \<^verbatim>\<open>asyncio.CancelledError\<close>.
\<close>

theorem failures_the_loop_does_not_contain:
  "task (processing_loop True [(Raises SystemExit, stub_generate_insights)])
     = Exited SystemExit
   \<and> completed (processing_loop True [(Raises SystemExit, stub_generate_insights)]) = 0
   \<and> task (processing_loop True [(Raises unprintable_error, stub_generate_insights)])
     = Exited RuntimeError
   \<and> task (processing_loop False [(Raises stop_iteration, stub_generate_insights)])
     = Waiting_for_ever
   \<and> task (processing_loop False [(Raises futures_cancelled, stub_generate_insights)])
     = Exited (PyExc BaseException_subclass (Repr_returns ''CancelledError()''))"
  by (simp add: processing_loop_def loop_iteration_def loop_start_def processing_cycle_def
        try_body_def SystemExit_def unprintable_error_def stop_iteration_def
        futures_cancelled_def await_process_stream_once_def await_coroutine_def
        to_thread_def is_Exception_def except_handler_def)




text \<open>
  C3. When the snapshot function returns \<open>s\<close> and the insights transformer returns
  \<open>t\<close> on \<open>s\<close>, the cycle stores exactly the record of status \<^verbatim>\<open>ok\<close> with \<open>s\<close> and
  \<open>t\<close>, whatever the prior value and whichever way the function is awaited; and with
  the snapshot \<^verbatim>\<open>{rally_count: 5}\<close> and the insights \<^verbatim>\<open>{tips: ["good rally"]}\<close> the stats
  route answers 200 with that record after one cycle.
\<close>

theorem successful_cycle_stores_ok:
  assumes "generate_insights s = Returns t"
  shows "processing_cycle iscoroutinefunction (Returns s) generate_insights prior
           = Stored (PDict [(''status'', PStr ''ok''), (''stats'', s), (''tips'', t)])
       \<and> api_stats (latest (processing_loop iscoroutinefunction
            [(Returns (PDict [(''rally_count'', PInt 5)]),
              \<lambda>stats. Returns (PDict [(''tips'', PList [PStr ''good rally''])]))]))
           = Returned (PDict [(''status'', PStr ''ok''),
                (''stats'', PDict [(''rally_count'', PInt 5)]),
                (''tips'', PDict [(''tips'', PList [PStr ''good rally''])])])
       \<and> status_code (api_stats (latest (processing_loop iscoroutinefunction
            [(Returns (PDict [(''rally_count'', PInt 5)]),
              \<lambda>stats. Returns (PDict [(''tips'', PList [PStr ''good rally''])]))]))) = 200"
proof -
  have 1: "processing_cycle iscoroutinefunction (Returns s) generate_insights prior
           = Stored (PDict [(''status'', PStr ''ok''), (''stats'', s), (''tips'', t)])"
    using assms by (simp add: processing_cycle_def await_Returns try_body_ok)
  have 2: "latest (processing_loop iscoroutinefunction
            [(Returns (PDict [(''rally_count'', PInt 5)]),
              \<lambda>stats. Returns (PDict [(''tips'', PList [PStr ''good rally''])]))])
          = PDict [(''status'', PStr ''ok''),
                (''stats'', PDict [(''rally_count'', PInt 5)]),
                (''tips'', PDict [(''tips'', PList [PStr ''good rally''])])]"
    by (simp add: processing_loop_def loop_iteration_def loop_start_def processing_cycle_def
          await_Returns try_body_ok)
  from 1 show ?thesis unfolding 2 by (simp add: api_stats_def)
qed

theorem successful_cycle_stores_ok_witness:
  "processing_cycle True stub_process_stream_once stub_generate_insights
     (PDict [(''status'', PStr ''error''), (''error'', PStr ''RuntimeError()''),
             (''stats'', PDict []), (''tips'', PDict [])])
   = Stored (PDict [(''status'', PStr ''ok''),
       (''stats'', PDict [(''rally_count'', PInt 0), (''heatmaps'', PDict []),
                          (''player_stats'', PDict []), (''last_updated'', PNone)]),
       (''tips'', PDict [(''tips'', PList [PStr stub_tip])])])"
proof -
  have h: "stub_generate_insights
      (PDict [(''rally_count'', PInt 0), (''heatmaps'', PDict []),
              (''player_stats'', PDict []), (''last_updated'', PNone)])
    = Returns (PDict [(''tips'', PList [PStr stub_tip])])"
    by (simp add: stub_generate_insights_def)
  from successful_cycle_stores_ok [of stub_generate_insights _ _ True
      "PDict [(''status'', PStr ''error''), (''error'', PStr ''RuntimeError()''),
              (''stats'', PDict []), (''tips'', PDict [])]", OF h]
  show ?thesis
    by (simp add: stub_process_stream_once_def)
qed

text \<open>
  C4 (as amended). When the snapshot function returns \<open>s\<close> and the insights
  transformer raises an instance of \<^verbatim>\<open>Exception\<close> on \<open>s\<close>, the cycle stores the record
  of status \<^verbatim>\<open>ok\<close> with snapshot \<open>s\<close> and, as tips, the fixed marker
  \<^verbatim>\<open>{"error": "insights generation failed"}\<close>: the stored value does not depend on
  the prior record, so the tips are not carried over from it.
\<close>

theorem insights_failure_stores_marker:
  assumes "generate_insights s = Raises e" and "is_Exception e"
  shows "processing_cycle iscoroutinefunction (Returns s) generate_insights prior
           = Stored (PDict [(''status'', PStr ''ok''), (''stats'', s),
               (''tips'', PDict [(''error'', PStr ''insights generation failed'')])])"
  using assms
  by (simp add: processing_cycle_def await_Returns try_body_marker insights_marker_def)

theorem insights_failure_stores_marker_witness:
  "processing_cycle False (Returns (PDict [(''rally_count'', PInt 5)]))
     (failing_generate_insights RuntimeError)
     (PDict [(''status'', PStr ''ok''), (''stats'', PDict []),
             (''tips'', PDict [(''tips'', PList [PStr ''good rally''])])])
   = Stored (PDict [(''status'', PStr ''ok''), (''stats'', PDict [(''rally_count'', PInt 5)]),
               (''tips'', PDict [(''error'', PStr ''insights generation failed'')])])"
proof -
  have h: "failing_generate_insights RuntimeError (PDict [(''rally_count'', PInt 5)])
             = Raises RuntimeError"
    by (simp add: failing_generate_insights_def)
  have e: "is_Exception RuntimeError" by (simp add: RuntimeError_def is_Exception_def)
  from insights_failure_stores_marker
    [of "failing_generate_insights RuntimeError" "PDict [(''rally_count'', PInt 5)]"
        RuntimeError, OF h e]
  show ?thesis by simp
qed

text \<open>
  C4 as stated fails: when the insights transformer raises \<^verbatim>\<open>KeyboardInterrupt\<close>,
  neither handler matches and the cycle stores nothing.
\<close>

theorem insights_KeyboardInterrupt_propagates:
  "processing_cycle True stub_process_stream_once (failing_generate_insights KeyboardInterrupt)
     LATEST_STATS_init = Propagated KeyboardInterrupt"
  by (simp add: processing_cycle_def try_body_def try_generate_insights_def
        stub_process_stream_once_def KeyboardInterrupt_def failing_generate_insights_def
        await_Returns is_Exception_def)

text \<open>
  C5. After any sequence of refresh cycles, whatever each one does, the stored status
  is one of \<^verbatim>\<open>starting\<close>, \<^verbatim>\<open>ok\<close>, \<^verbatim>\<open>error\<close>, and it is \<^verbatim>\<open>starting\<close> exactly when
  no cycle has completed yet.
\<close>

theorem status_starting_only_before_first_cycle:
  "field ''status'' (latest (processing_loop iscoroutinefunction schedule))
     \<in> {Some (PStr ''starting''), Some (PStr ''ok''), Some (PStr ''error'')}
   \<and> ((field ''status'' (latest (processing_loop iscoroutinefunction schedule))
          = Some (PStr ''starting''))
        = (completed (processing_loop iscoroutinefunction schedule) = 0))"
  using loop_inv_processing_loop [of iscoroutinefunction schedule]
  by (auto simp: loop_inv_def is_LatestResult_def)

theorem status_starting_only_before_first_cycle_witness:
  "field ''status'' (latest (processing_loop True
      [(stub_process_stream_once, stub_generate_insights),
       (Raises RuntimeError, stub_generate_insights)])) = Some (PStr ''error'')
   \<and> completed (processing_loop True
      [(stub_process_stream_once, stub_generate_insights),
       (Raises RuntimeError, stub_generate_insights)]) = 2"
proof -
  let ?sched = "[(stub_process_stream_once, stub_generate_insights),
       (Raises RuntimeError, stub_generate_insights)]"
  have c: "completed (processing_loop True ?sched) = 2"
    by (simp add: processing_loop_def loop_iteration_def loop_start_def processing_cycle_def
        try_body_def try_generate_insights_def stub_process_stream_once_def
        stub_generate_insights_def RuntimeError_def except_handler_def dict_get_def
        await_process_stream_once_def await_coroutine_def is_Exception_def)
  have l: "field ''status'' (latest (processing_loop True ?sched)) = Some (PStr ''error'')"
    by (simp add: processing_loop_def loop_iteration_def loop_start_def processing_cycle_def
        try_body_def try_generate_insights_def stub_process_stream_once_def
        stub_generate_insights_def RuntimeError_def except_handler_def dict_get_def field_def
        await_process_stream_once_def await_coroutine_def is_Exception_def)
  from status_starting_only_before_first_cycle [of True ?sched] c l show ?thesis by simp
qed






text \<open>
  C8 (as amended). From the snapshot call of a refresh cycle on, whatever the
  collaborators do and whatever the pipeline writes in between, the record bound to the
  global is at every moment the one bound when the cycle began or the one the cycle
  stores: the loop rebinds the global and never writes into a record. The loop keeps the
  collaborators' objects uncopied, so when no write touches an object of the record that
  is bound, a stats request served at any moment of the cycle is answered the complete
  previous record or the complete next one, each always the same.
\<close>

theorem readers_see_previous_or_next:
  "(\<forall>w \<in> set (run c b evs ((AwaitSnapshot, g), h)).
       snd (fst w) = g \<or> processing_cycle c (fst b) (snd b) g = Stored (snd (fst w)))
   \<and> (quiet c b evs ((AwaitSnapshot, g), h) \<longrightarrow>
        (\<exists>nxt. \<forall>w \<in> set (run c b evs ((AwaitSnapshot, g), h)).
            snd (fst w) = g \<and> stats_response w = stats_response ((AwaitSnapshot, g), h)
          \<or> processing_cycle c (fst b) (snd b) g = Stored (snd (fst w))
            \<and> stats_response w = nxt))"
proof -
  have t: "on_track c b g (AwaitSnapshot, g)" by simp
  have 1: "\<forall>w \<in> set (run c b evs ((AwaitSnapshot, g), h)).
       snd (fst w) = g \<or> processing_cycle c (fst b) (snd b) g = Stored (snd (fst w))"
  proof
    fix w assume "w \<in> set (run c b evs ((AwaitSnapshot, g), h))"
    with run_bound [OF t, of evs h] have "on_track c b g (fst w)" by blast
    then have "on_track c b g (fst (fst w), snd (fst w))" by simp
    from on_track_bound [OF this]
    show "snd (fst w) = g \<or> processing_cycle c (fst b) (snd b) g = Stored (snd (fst w))"
      by blast
  qed
  have 2: "\<exists>nxt. \<forall>w \<in> set (run c b evs ((AwaitSnapshot, g), h)).
            snd (fst w) = g \<and> stats_response w = stats_response ((AwaitSnapshot, g), h)
          \<or> processing_cycle c (fst b) (snd b) g = Stored (snd (fst w))
            \<and> stats_response w = nxt"
    if q: "quiet c b evs ((AwaitSnapshot, g), h)"
  proof -
    from run_quiet [OF t _ q refl] obtain v where
      v: "\<forall>w \<in> set (run c b evs ((AwaitSnapshot, g), h)).
           snd (fst w) = g \<and> render (snd w) g = render h g
         \<or> processing_cycle c (fst b) (snd b) g = Stored (snd (fst w))
           \<and> render (snd w) (snd (fst w)) = v"
      by auto
    let ?nxt = "case processing_cycle c (fst b) (snd b) g of
                  Stored g1 \<Rightarrow> (if g1 = PNone then api_stats g1 else Returned v)
                | _ \<Rightarrow> Returned v"
    have "\<forall>w \<in> set (run c b evs ((AwaitSnapshot, g), h)).
            snd (fst w) = g \<and> stats_response w = stats_response ((AwaitSnapshot, g), h)
          \<or> processing_cycle c (fst b) (snd b) g = Stored (snd (fst w))
            \<and> stats_response w = ?nxt"
    proof
      fix w assume "w \<in> set (run c b evs ((AwaitSnapshot, g), h))"
      with v have "snd (fst w) = g \<and> render (snd w) g = render h g
         \<or> processing_cycle c (fst b) (snd b) g = Stored (snd (fst w))
           \<and> render (snd w) (snd (fst w)) = v" by blast
      then show "snd (fst w) = g \<and> stats_response w = stats_response ((AwaitSnapshot, g), h)
          \<or> processing_cycle c (fst b) (snd b) g = Stored (snd (fst w))
            \<and> stats_response w = ?nxt"
        by (auto simp: stats_response_def api_stats_def)
    qed
    then show ?thesis by blast
  qed
  from 1 2 show ?thesis by blast
qed

theorem readers_see_previous_or_next_witness:
  "map stats_response (run True fresh_cycle_2 fresh_events world_after_cycle_1)
     = [Returned (record_of_cycle reused_stats_1 1), Returned (record_of_cycle reused_stats_1 1),
        Returned (record_of_cycle reused_stats_1 1), Returned (record_of_cycle reused_stats_1 1),
        Returned (record_of_cycle reused_stats_1 1), Returned (record_of_cycle reused_stats_2 2)]"
proof -
  have w: "world_after_cycle_1 = ((AwaitSnapshot, record_of_cycle (PRef 0) 1), heap_after_cycle_1)"
    by (simp add: world_after_cycle_1_def)
  have q: "quiet True fresh_cycle_2 fresh_events
             ((AwaitSnapshot, record_of_cycle (PRef 0) 1), heap_after_cycle_1)"
    by (simp add: fresh_events_def fresh_cycle_2_def record_of_cycle_def tips_of_cycle_def
          await_process_stream_once_def await_coroutine_def insights_of_cycle_2_def)
  from readers_see_previous_or_next [of True fresh_cycle_2 fresh_events
      "record_of_cycle (PRef 0) 1" heap_after_cycle_1] q
  obtain nxt where "\<forall>w \<in> set (run True fresh_cycle_2 fresh_events
                ((AwaitSnapshot, record_of_cycle (PRef 0) 1), heap_after_cycle_1)).
            snd (fst w) = record_of_cycle (PRef 0) 1
            \<and> stats_response w
                = stats_response ((AwaitSnapshot, record_of_cycle (PRef 0) 1), heap_after_cycle_1)
          \<or> processing_cycle True (fst fresh_cycle_2) (snd fresh_cycle_2)
               (record_of_cycle (PRef 0) 1) = Stored (snd (fst w))
            \<and> stats_response w = nxt"
    by blast
  then show ?thesis unfolding w
    by (simp add: fresh_events_def fresh_cycle_2_def record_of_cycle_def tips_of_cycle_def
          await_process_stream_once_def await_coroutine_def insights_of_cycle_2_def
          stats_response_def api_stats_def reused_stats_1_def reused_stats_2_def
          reused_stats_mixed_def heap_after_cycle_1_def)
qed

text \<open>
  C8 as stated fails. The pipeline reuses the dict of its snapshot: the record of
  cycle 1 is bound and the loop waits for the snapshot of cycle 2 when the pipeline has
  updated the rally count and not yet the heat maps. A stats request served then is
  answered the rally count of cycle 2 with the heat maps and the tips of cycle 1, which
  is neither the record of cycle 1 nor the record of cycle 2.
\<close>

theorem reader_sees_mixed_record:
  "map stats_response (run True reusing_cycle_2 reusing_events world_after_cycle_1)
     = [Returned (record_of_cycle reused_stats_1 1), Returned (record_of_cycle reused_stats_mixed 1),
        Returned (record_of_cycle reused_stats_2 1), Returned (record_of_cycle reused_stats_2 1),
        Returned (record_of_cycle reused_stats_2 1), Returned (record_of_cycle reused_stats_2 2)]
   \<and> fst (run True reusing_cycle_2 reusing_events world_after_cycle_1 ! 1)
       = (AwaitSnapshot, record_of_cycle (PRef 0) 1)
   \<and> record_of_cycle reused_stats_mixed 1 \<noteq> record_of_cycle reused_stats_1 1
   \<and> record_of_cycle reused_stats_mixed 1 \<noteq> record_of_cycle reused_stats_2 2"
  by (simp add: reusing_events_def reusing_cycle_2_def world_after_cycle_1_def heap_after_cycle_1_def record_of_cycle_def
        tips_of_cycle_def await_process_stream_once_def await_coroutine_def
        insights_of_cycle_2_def stats_response_def api_stats_def reused_stats_1_def
        reused_stats_2_def reused_stats_mixed_def)

text \<open>
  C9. The handlers of \<^verbatim>\<open>/\<close> and \<^verbatim>\<open>/analysis.html\<close> give the same result on every
  state of the file system: both are the read of \<^verbatim>\<open>analysis.html\<close>, and their result
  depends on nothing but what \<^verbatim>\<open>frontend/analysis.html\<close> names.
\<close>

theorem home_equals_analysis_page:
  "home fs = analysis_page fs
   \<and> home fs = read_frontend_html fs ''analysis.html''
   \<and> (\<forall>fs'. fs' ''frontend/analysis.html'' = fs ''frontend/analysis.html'' \<longrightarrow>
         home fs' = home fs \<and> analysis_page fs' = analysis_page fs)"
  by (auto simp: home_def analysis_page_def read_frontend_html_def path_exists_def
        read_text_def Let_def)

theorem home_equals_analysis_page_witness:
  "home fs_crlf = analysis_page fs_crlf
   \<and> home (fs_crlf(''frontend/technique.html'' \<mapsto> Directory)) = home fs_crlf
   \<and> home fs_pages = analysis_page fs_pages"
proof -
  have "(fs_crlf(''frontend/technique.html'' \<mapsto> Directory)) ''frontend/analysis.html''
          = fs_crlf ''frontend/analysis.html''"
    by simp
  with home_equals_analysis_page [of fs_crlf] home_equals_analysis_page [of fs_pages]
  show ?thesis by blast
qed

text \<open>
  C10. When the file of a page route exists and its bytes are not valid UTF-8, the
  handler raises an uncaught \<^verbatim>\<open>UnicodeDecodeError\<close>: it neither returns content nor
  raises the 404 error. For an existing file the handler returns content exactly when
  the bytes are valid UTF-8.
\<close>

theorem undecodable_page_raises:
  assumes "(route, handler, name) \<in> set page_routes"
    and "fs (''frontend/'' @ name) = Some (File bs)"
  shows "(utf8_decode bs = None \<longrightarrow>
            handler fs = Uncaught UnicodeDecodeError
            \<and> (\<forall>content. handler fs \<noteq> Returned content)
            \<and> (\<forall>detail. handler fs \<noteq> HTTPException 404 detail)
            \<and> status_code (handler fs) \<noteq> 200 \<and> status_code (handler fs) \<noteq> 404)
       \<and> ((\<exists>content. handler fs = Returned content) = (\<exists>content. utf8_decode bs = Some content))"
proof -
  from page_routes_handler [OF assms(1)] have h: "handler fs = read_frontend_html fs name"
    by simp
  have 1: "utf8_decode bs = None \<longrightarrow>
            handler fs = Uncaught UnicodeDecodeError
            \<and> (\<forall>content. handler fs \<noteq> Returned content)
            \<and> (\<forall>detail. handler fs \<noteq> HTTPException 404 detail)
            \<and> status_code (handler fs) \<noteq> 200 \<and> status_code (handler fs) \<noteq> 404"
    by (simp add: h read_frontend_html_undecodable [of fs name bs, OF assms(2)])
  have 2: "(\<exists>content. handler fs = Returned content) = (\<exists>content. utf8_decode bs = Some content)"
  proof
    assume "\<exists>content. handler fs = Returned content"
    then obtain content where "read_frontend_html fs name = Returned content" by (auto simp: h)
    from read_frontend_html_Returned [of fs name content, OF this] assms(2)
    show "\<exists>content. utf8_decode bs = Some content" by auto
  next
    assume "\<exists>content. utf8_decode bs = Some content"
    then obtain content where "utf8_decode bs = Some content" by blast
    from read_frontend_html_decodable [of fs name bs content, OF assms(2) this]
    show "\<exists>content. handler fs = Returned content" by (simp add: h)
  qed
  from 1 2 show ?thesis by blast
qed

theorem undecodable_page_raises_witness:
  "tactical_page fs_pages = Uncaught UnicodeDecodeError
   \<and> status_code (tactical_page fs_pages) = 500"
proof -
  have t: "(''/tactical.html'', tactical_page, ''tactical.html'') \<in> set page_routes"
    by (simp add: page_routes_def)
  have f: "fs_pages (''frontend/'' @ ''tactical.html'') = Some (File [0xFF, 0xFE, 0x3C, 0x00])"
    by (simp add: fs_pages_def)
  from undecodable_page_raises [of _ tactical_page "''tactical.html''" fs_pages, OF t f]
    utf8_decode_utf16
  have "tactical_page fs_pages = Uncaught UnicodeDecodeError" by blast
  then show ?thesis by simp
qed

end
